theory Spec2Isabelle
  imports Complex_Main "HOL-Library.Word" "HOL-Library.Log_Nat"
begin

section \<open>Data model of \<^verbatim>\<open>src/App.jsx\<close>\<close>

text \<open>
  The embedding follows \<^verbatim>\<open>src/App.jsx\<close>, with these conventions.

  \<^item> Numbers come in two readings. In the first a Number is a \<open>real\<close> and arithmetic is
    exact; a count (the length of a string) is a \<open>nat\<close>, the result of \<^verbatim>\<open>Math.round\<close> an
    \<open>int\<close>. The score generator, the ranking and the zero-sum guard are stated in this
    reading: what is proved of them does not rest on how a result is rounded. In the
    second a Number is an IEEE 754 double, each operation rounds to the nearest double,
    overflows to Infinity and propagates NaN. The normalizer is given in both, and what
    is said about the values of its confidences is said of the second, under the names
    that end in \<open>_f64\<close>.
  \<^item> A JavaScript string is the list of its UTF-16 code units, which is what
    \<^verbatim>\<open>.length\<close> counts and what \<^verbatim>\<open>startsWith\<close> compares. A literal of the source is
    written \<open>str ''...''\<close>.
\<close>

type_synonym code_unit = "16 word"
type_synonym js_string = "code_unit list"

definition str :: "string \<Rightarrow> js_string" where
  "str s = map of_char s"

text \<open>The four labels of the objects that \<^verbatim>\<open>mockPredictEmotion\<close> builds.\<close>

datatype label = Calm | Stressed | Excited | Neutral

text \<open>
  An entry \<^verbatim>\<open>{ label, score }\<close>, and the entry that \<^verbatim>\<open>normalizeScores\<close> returns for it:
  the spread \<^verbatim>\<open>...score\<close> keeps both fields and \<^verbatim>\<open>confidence\<close> is added.
\<close>

record raw_score =
  label :: label
  score :: real

record ranked = raw_score +
  confidence :: int

text \<open>The two properties of a \<^verbatim>\<open>File\<close> that the code reads.\<close>

record file_like =
  name :: js_string
  type :: js_string

section \<open>\<^verbatim>\<open>normalizeScores\<close>\<close>

text \<open>\<^verbatim>\<open>Math.round\<close> rounds to the nearest integer, a half towards plus infinity.\<close>

definition Math_round :: "real \<Rightarrow> int" where
  "Math_round x = \<lfloor>x + 1 / 2\<rfloor>"

text \<open>\<^verbatim>\<open>a || b\<close> on numbers: \<open>b\<close> when \<open>a\<close> is falsy, which for a real is \<open>a = 0\<close>.\<close>

definition or_else :: "real \<Rightarrow> real \<Rightarrow> real" where
  "or_else a b = (if a = 0 then b else a)"

text \<open>
  \<^verbatim>\<open>const total = scores.reduce((sum, score) => sum + score.score, 0) || 1\<close>:
  \<^verbatim>\<open>reduce\<close> with an initial value is a left fold. Here and in \<open>normalizeScores\<close> the
  arithmetic is exact; \<open>total_f64\<close> and \<open>normalizeScores_f64\<close> below are the same two
  functions in double precision.
\<close>

definition total_of :: "raw_score list \<Rightarrow> real" where
  "total_of scores = or_else (foldl (\<lambda>sum s. sum + score s) 0 scores) 1"

definition normalizeScores :: "raw_score list \<Rightarrow> ranked list" where
  "normalizeScores scores =
     map (\<lambda>s. \<lparr>label = label s, score = score s,
                confidence = Math_round ((score s / total_of scores) * 100)\<rparr>) scores"

section \<open>\<^verbatim>\<open>mockPredictEmotion\<close>\<close>

text \<open>
  \<^verbatim>\<open>fileLike?.name\<close> is undefined when there is no file, and \<^verbatim>\<open>x || 'mic'\<close> takes the
  fallback when \<open>x\<close> is undefined or the empty string.
\<close>

definition optional_name :: "file_like option \<Rightarrow> js_string option" where
  "optional_name fileLike = map_option name fileLike"

definition or_else_str :: "js_string option \<Rightarrow> js_string \<Rightarrow> js_string" where
  "or_else_str a b = (case a of None \<Rightarrow> b | Some s \<Rightarrow> if s = [] then b else s)"

definition seed :: "file_like option \<Rightarrow> nat" where
  "seed fileLike = length (or_else_str (optional_name fileLike) (str ''mic''))"

text \<open>The array \<^verbatim>\<open>base\<close>; the seed is a length, so \<^verbatim>\<open>%\<close> is \<open>mod\<close>.\<close>

definition base :: "file_like option \<Rightarrow> raw_score list" where
  "base fileLike =
     [\<lparr>label = Calm, score = 0.32 + real (seed fileLike mod 3) * 0.05\<rparr>,
      \<lparr>label = Stressed, score = 0.28 + real ((seed fileLike + 1) mod 3) * 0.04\<rparr>,
      \<lparr>label = Excited, score = 0.25 + real ((seed fileLike + 2) mod 3) * 0.03\<rparr>,
      \<lparr>label = Neutral, score = 0.15\<rparr>]"

text \<open>
  \<^verbatim>\<open>Math.random\<close> is the only source of nondeterminism. The model takes its results as
  an argument: \<open>random k\<close> is the value of the \<open>k\<close>-th call of one invocation, and
  \<^verbatim>\<open>map\<close> visits the items in index order, one call each. The jitter added to an item
  is \<^verbatim>\<open>(Math.random() - 0.5) * 0.12\<close>.
\<close>

definition jitter :: "real \<Rightarrow> real" where
  "jitter r = (r - 0.5) * 0.12"

definition jittered :: "(nat \<Rightarrow> real) \<Rightarrow> raw_score list \<Rightarrow> raw_score list" where
  "jittered random items =
     map (\<lambda>(k, item). item\<lparr>score := max 0.05 (score item + jitter (random k))\<rparr>)
       (enumerate 0 items)"

text \<open>
  \<^verbatim>\<open>Array.prototype.sort\<close> with a comparator is a built-in of the language: it orders
  \<open>a\<close> before \<open>b\<close> when \<open>cmp a b < 0\<close> and is stable. A stable sort has one result for
  a comparator that is a total preorder, so the model is the insertion sort that has it.
\<close>

fun insert_by :: "('a \<Rightarrow> 'a \<Rightarrow> int) \<Rightarrow> 'a \<Rightarrow> 'a list \<Rightarrow> 'a list" where
  "insert_by cmp x [] = [x]"
| "insert_by cmp x (y # ys) =
     (if cmp x y \<le> 0 then x # y # ys else y # insert_by cmp x ys)"

fun sort_by :: "('a \<Rightarrow> 'a \<Rightarrow> int) \<Rightarrow> 'a list \<Rightarrow> 'a list" where
  "sort_by cmp [] = []"
| "sort_by cmp (x # xs) = insert_by cmp x (sort_by cmp xs)"

text \<open>The comparator \<^verbatim>\<open>(a, b) => b.confidence - a.confidence\<close>.\<close>

definition by_confidence :: "ranked \<Rightarrow> ranked \<Rightarrow> int" where
  "by_confidence a b = confidence b - confidence a"

text \<open>
  The last line of \<^verbatim>\<open>mockPredictEmotion\<close>, as a function of the scores it is given.
\<close>

definition rank :: "raw_score list \<Rightarrow> ranked list" where
  "rank scores = sort_by by_confidence (normalizeScores scores)"

text \<open>
  An \<^verbatim>\<open>async\<close> function returns a promise, which settles as fulfilled with a value or
  as rejected. The delay of 900 ms before the computation is not modelled.
\<close>

datatype 'a settled = Fulfilled 'a | Rejected

definition mockPredictEmotion :: "(nat \<Rightarrow> real) \<Rightarrow> file_like option \<Rightarrow> ranked list settled" where
  "mockPredictEmotion random fileLike = Fulfilled (rank (jittered random (base fileLike)))"

section \<open>The component state and \<^verbatim>\<open>handleFile\<close>\<close>

text \<open>The values of \<^verbatim>\<open>status\<close>: \<^verbatim>\<open>'idle'\<close>, \<^verbatim>\<open>'loading'\<close> and \<^verbatim>\<open>'done'\<close>.\<close>

datatype status = Idle | Loading | Done

text \<open>The six \<^verbatim>\<open>useState\<close> cells of \<^verbatim>\<open>App\<close>.\<close>

record app_state =
  audioUrl :: js_string
  audioName :: js_string
  results :: "ranked list"
  status :: status
  error :: js_string
  isRecording :: bool

text \<open>
  The calls that leave the component: \<^verbatim>\<open>URL.createObjectURL\<close> and the analysis
  pipeline \<^verbatim>\<open>mockPredictEmotion\<close>. Each function returns the new state and the calls
  it made, in order.
\<close>

datatype call = CreateObjectURL file_like | MockPredictEmotion file_like

text \<open>
  \<^verbatim>\<open>analyzeAudio\<close>: the two setters before the \<^verbatim>\<open>await\<close>, then the \<^verbatim>\<open>try\<close> branch when
  the promise is fulfilled and the \<^verbatim>\<open>catch\<close> branch when it is rejected. The state is
  the one after the promise has settled.
\<close>

definition analyzeAudio :: "(nat \<Rightarrow> real) \<Rightarrow> file_like \<Rightarrow> app_state \<Rightarrow> app_state \<times> call list" where
  "analyzeAudio random file s =
     (let s1 = s\<lparr>status := Loading\<rparr>;
          s2 = s1\<lparr>error := []\<rparr>
      in (case mockPredictEmotion random (Some file) of
            Fulfilled prediction \<Rightarrow>
              (let s3 = s2\<lparr>results := prediction\<rparr> in s3\<lparr>status := Done\<rparr>)
          | Rejected \<Rightarrow>
              (let s3 = s2\<lparr>error := str ''Could not analyze. Please try again.''\<rparr>
               in s3\<lparr>status := Idle\<rparr>),
          [MockPredictEmotion file]))"

text \<open>\<^verbatim>\<open>String.prototype.startsWith\<close> from position 0.\<close>

definition startsWith :: "js_string \<Rightarrow> js_string \<Rightarrow> bool" where
  "startsWith s p = (take (length p) s = p)"

text \<open>
  \<^verbatim>\<open>handleFile\<close>. The argument is optional because of \<^verbatim>\<open>file?.type\<close>: without a file the
  test \<^verbatim>\<open>!file?.type?.startsWith('audio')\<close> is true. \<open>createObjectURL\<close> is the browser's
  \<^verbatim>\<open>URL.createObjectURL\<close>.
\<close>

definition handleFile ::
  "(file_like \<Rightarrow> js_string) \<Rightarrow> (nat \<Rightarrow> real) \<Rightarrow> file_like option \<Rightarrow> app_state
     \<Rightarrow> app_state \<times> call list" where
  "handleFile createObjectURL random file s =
     (case file of
        None \<Rightarrow> (s\<lparr>error := str ''Please upload an audio file (wav, m4a, mp3).''\<rparr>, [])
      | Some f \<Rightarrow>
          if \<not> startsWith (type f) (str ''audio'')
          then (s\<lparr>error := str ''Please upload an audio file (wav, m4a, mp3).''\<rparr>, [])
          else
            (let url = createObjectURL f;
                 s1 = s\<lparr>audioUrl := url\<rparr>;
                 s2 = s1\<lparr>audioName := name f\<rparr>;
                 (s3, calls) = analyzeAudio random f s2
             in (s3, CreateObjectURL f # calls)))"

text \<open>The initial values of the six cells.\<close>

definition initial_state :: app_state where
  "initial_state =
     \<lparr>audioUrl = [], audioName = [], results = [], status = Idle, error = [],
      isRecording = False\<rparr>"

section \<open>The specification's formulas\<close>

text \<open>
  The normalizer as the specification words it: the total is the sum of all scores,
  taken as 1 when the sum is zero, and the confidence of an entry is
  \<open>round (100 * score / total)\<close>.
\<close>

definition spec_total :: "raw_score list \<Rightarrow> real" where
  "spec_total scores =
     (if sum_list (map score scores) = 0 then 1 else sum_list (map score scores))"

definition spec_confidence :: "raw_score list \<Rightarrow> raw_score \<Rightarrow> int" where
  "spec_confidence scores s = round (100 * score s / spec_total scores)"

text \<open>
  The seed as the specification words it: the length of the display name, and the
  length of the fallback identifier when there is no clip handle.
\<close>

definition spec_seed :: "file_like option \<Rightarrow> nat" where
  "spec_seed fileLike =
     (case fileLike of None \<Rightarrow> length (str ''mic'') | Some f \<Rightarrow> length (name f))"

text \<open>The order of the output: an earlier entry has at least the confidence of a later one.\<close>

definition descending :: "ranked \<Rightarrow> ranked \<Rightarrow> bool" where
  "descending a b = (confidence b \<le> confidence a)"

section \<open>Double precision\<close>

text \<open>
  A Number of the program is an IEEE 754 double. A finite double is given by its value,
  a real; the two zeros are one value, which this code cannot tell apart (a zero is
  never a divisor here and the sign of a zero confidence is not read). Beside the finite
  doubles there are the two infinities and NaN.
\<close>

datatype number = Num real | PosInfinity | NegInfinity | NaN

text \<open>
  The binary exponent of a real \<open>x \<noteq> 0\<close>: the \<open>e\<close> with \<open>2 ^ e \<le> \<bar>x\<bar> < 2 ^ (e + 1)\<close>,
  read off the bit length of \<open>\<lfloor>\<bar>x\<bar>\<rfloor>\<close>, or of \<open>\<lfloor>1 / \<bar>x\<bar>\<rfloor>\<close> below 1.
\<close>

definition exponent :: "real \<Rightarrow> int" where
  "exponent x =
     (let a = \<bar>x\<bar> in
      if 1 \<le> a then bitlen \<lfloor>a\<rfloor> - 1
      else (let k = bitlen \<lfloor>1 / a\<rfloor> - 1 in if a * 2 powi k = 1 then - k else - k - 1))"

text \<open>
  The spacing of the doubles around \<open>x\<close>: 53 significant bits, and \<open>2 ^ -1074\<close> in the
  subnormal range.
\<close>

definition quantum :: "real \<Rightarrow> real" where
  "quantum x = 2 powi (max (exponent x - 52) (- 1074))"

text \<open>Rounding to the nearest integer, a tie to the even one.\<close>

definition round_half_even :: "real \<Rightarrow> int" where
  "round_half_even y =
     (let f = \<lfloor>y\<rfloor>; d = y - of_int f in
      if d < 1 / 2 then f else if 1 / 2 < d then f + 1 else if even f then f else f + 1)"

definition nearest :: "real \<Rightarrow> real" where
  "nearest x = of_int (round_half_even (x / quantum x)) * quantum x"

text \<open>
  The largest double is \<open>2 ^ 1024 - 2 ^ 971\<close>; a real half a spacing above it, or
  more, rounds to infinity.
\<close>

definition overflow_threshold :: real where
  "overflow_threshold = 2 ^ 1024 - 2 ^ 970"

text \<open>The double that an operation returns for the exact result \<open>x\<close>.\<close>

definition rnd :: "real \<Rightarrow> number" where
  "rnd x =
     (if overflow_threshold \<le> \<bar>x\<bar> then (if 0 < x then PosInfinity else NegInfinity)
      else Num (nearest x))"

text \<open>A real is a double when rounding leaves it as it is.\<close>

definition is_double :: "real \<Rightarrow> bool" where
  "is_double x = (rnd x = Num x)"

text \<open>The operators \<^verbatim>\<open>+\<close>, \<^verbatim>\<open>/\<close> and \<^verbatim>\<open>*\<close> on Numbers.\<close>

fun add_f64 :: "number \<Rightarrow> number \<Rightarrow> number" where
  "add_f64 (Num a) (Num b) = rnd (a + b)"
| "add_f64 NaN _ = NaN"
| "add_f64 _ NaN = NaN"
| "add_f64 PosInfinity NegInfinity = NaN"
| "add_f64 NegInfinity PosInfinity = NaN"
| "add_f64 PosInfinity _ = PosInfinity"
| "add_f64 _ PosInfinity = PosInfinity"
| "add_f64 NegInfinity _ = NegInfinity"
| "add_f64 _ NegInfinity = NegInfinity"

fun div_f64 :: "number \<Rightarrow> number \<Rightarrow> number" where
  "div_f64 (Num a) (Num b) =
     (if b = 0 then (if a = 0 then NaN else if 0 < a then PosInfinity else NegInfinity)
      else rnd (a / b))"
| "div_f64 NaN _ = NaN"
| "div_f64 _ NaN = NaN"
| "div_f64 (Num a) _ = Num 0"
| "div_f64 PosInfinity (Num b) = (if 0 \<le> b then PosInfinity else NegInfinity)"
| "div_f64 NegInfinity (Num b) = (if 0 \<le> b then NegInfinity else PosInfinity)"
| "div_f64 _ _ = NaN"

fun mul_f64 :: "number \<Rightarrow> number \<Rightarrow> number" where
  "mul_f64 (Num a) (Num b) = rnd (a * b)"
| "mul_f64 NaN _ = NaN"
| "mul_f64 _ NaN = NaN"
| "mul_f64 PosInfinity (Num b) =
     (if b = 0 then NaN else if 0 < b then PosInfinity else NegInfinity)"
| "mul_f64 NegInfinity (Num b) =
     (if b = 0 then NaN else if 0 < b then NegInfinity else PosInfinity)"
| "mul_f64 (Num a) PosInfinity =
     (if a = 0 then NaN else if 0 < a then PosInfinity else NegInfinity)"
| "mul_f64 (Num a) NegInfinity =
     (if a = 0 then NaN else if 0 < a then NegInfinity else PosInfinity)"
| "mul_f64 PosInfinity PosInfinity = PosInfinity"
| "mul_f64 NegInfinity NegInfinity = PosInfinity"
| "mul_f64 PosInfinity NegInfinity = NegInfinity"
| "mul_f64 NegInfinity PosInfinity = NegInfinity"

text \<open>
  \<^verbatim>\<open>Math.round\<close> returns the integer nearest to its argument, a half towards plus
  infinity; it computes no sum, so nothing is rounded before the floor is taken.
\<close>

fun Math_round_f64 :: "number \<Rightarrow> number" where
  "Math_round_f64 (Num x) = Num (of_int \<lfloor>x + 1 / 2\<rfloor>)"
| "Math_round_f64 n = n"

text \<open>\<^verbatim>\<open>a || b\<close> on Numbers: zero and NaN are falsy.\<close>

definition or_else_f64 :: "number \<Rightarrow> number \<Rightarrow> number" where
  "or_else_f64 a b = (if a = Num 0 \<or> a = NaN then b else a)"

section \<open>\<^verbatim>\<open>normalizeScores\<close> in double precision\<close>

text \<open>
  The function of the source with the arithmetic of the source. The scores it is given
  are finite doubles, so an entry is a \<open>raw_score\<close> whose score satisfies \<open>is_double\<close>;
  the confidence it returns is a Number.
\<close>

record ranked_f64 = raw_score +
  confidence_f64 :: number

definition total_f64 :: "raw_score list \<Rightarrow> number" where
  "total_f64 scores =
     or_else_f64 (foldl (\<lambda>sum s. add_f64 sum (Num (score s))) (Num 0) scores) (Num 1)"

definition normalizeScores_f64 :: "raw_score list \<Rightarrow> ranked_f64 list" where
  "normalizeScores_f64 scores =
     map (\<lambda>s. \<lparr>label = label s, score = score s,
                confidence_f64 =
                  Math_round_f64
                    (mul_f64 (div_f64 (Num (score s)) (total_f64 scores)) (Num 100))\<rparr>)
       scores"

text \<open>The Number that \<^verbatim>\<open>normalizeScores\<close> hands to \<^verbatim>\<open>Math.round\<close> for an entry.\<close>

definition share_f64 :: "raw_score list \<Rightarrow> raw_score \<Rightarrow> number" where
  "share_f64 scores s = mul_f64 (div_f64 (Num (score s)) (total_f64 scores)) (Num 100)"

text \<open>
  The value of that Number when the sum \<open>t\<close> of the scores is finite and nothing
  overflows: the quotient of the score \<open>x\<close> by the total is rounded, then its product
  with 100 is. The total is \<open>t\<close>, or 1 when \<open>t\<close> is zero.
\<close>

definition rounded_share :: "real \<Rightarrow> real \<Rightarrow> real" where
  "rounded_share t x = nearest (nearest (x / (if t = 0 then 1 else t)) * 100)"

text \<open>The same share in exact arithmetic, with the specification's total.\<close>

definition exact_share :: "raw_score list \<Rightarrow> raw_score \<Rightarrow> real" where
  "exact_share scores s = 100 * score s / spec_total scores"

text \<open>
  The relative error of one rounding, \<open>2 ^ -53\<close>, and the absolute error of a rounding
  in the subnormal range, \<open>2 ^ -1075\<close>, which is half the smallest spacing.
\<close>

definition eps :: real where
  "eps = 1 / 2 ^ 53"

definition min_quantum :: real where
  "min_quantum = 2 powi (- 1074)"

definition tiny :: real where
  "tiny = min_quantum / 2"

text \<open>The multiples of the smallest spacing; every double is one.\<close>

definition on_grid :: "real \<Rightarrow> bool" where
  "on_grid x = (\<exists>n::int. x = of_int n * min_quantum)"

text \<open>
  The interval around an exact share \<open>x\<close> in which the computed share of a list of \<open>n\<close>
  scores lies: \<open>n\<close> roundings in the sum, one in the quotient, one in the product.
\<close>

definition lower_share :: "nat \<Rightarrow> real \<Rightarrow> real" where
  "lower_share n x = x * (1 - eps) ^ 2 / (1 + eps) ^ n - 102 * tiny"

definition upper_share :: "nat \<Rightarrow> real \<Rightarrow> real" where
  "upper_share n x = x * (1 + eps) ^ 2 / (1 - eps) ^ n + 102 * tiny"

section \<open>Concrete inputs\<close>

definition half_scores :: "raw_score list" where
  "half_scores =
     [\<lparr>label = Calm, score = 23\<rparr>, \<lparr>label = Stressed, score = 7\<rparr>,
      \<lparr>label = Excited, score = 5\<rparr>, \<lparr>label = Neutral, score = 5\<rparr>]"

definition huge_scores :: "raw_score list" where
  "huge_scores =
     [\<lparr>label = Calm, score = 2 ^ 1022\<rparr>, \<lparr>label = Stressed, score = 2 ^ 1022\<rparr>,
      \<lparr>label = Excited, score = 2 ^ 1022\<rparr>, \<lparr>label = Neutral, score = 2 ^ 1022\<rparr>]"

definition tie_scores :: "raw_score list" where
  "tie_scores =
     [\<lparr>label = Calm, score = 0.1\<rparr>, \<lparr>label = Stressed, score = 0.3\<rparr>,
      \<lparr>label = Excited, score = 0.3\<rparr>, \<lparr>label = Neutral, score = 0.1\<rparr>]"

definition uneven_scores :: "raw_score list" where
  "uneven_scores =
     [\<lparr>label = Calm, score = 1\<rparr>, \<lparr>label = Stressed, score = 1\<rparr>,
      \<lparr>label = Excited, score = 1\<rparr>, \<lparr>label = Neutral, score = 3\<rparr>]"

definition zero_scores :: "raw_score list" where
  "zero_scores =
     [\<lparr>label = Calm, score = 0\<rparr>, \<lparr>label = Stressed, score = 0\<rparr>,
      \<lparr>label = Excited, score = 0\<rparr>, \<lparr>label = Neutral, score = 0\<rparr>]"

definition clip5 :: file_like where
  "clip5 = \<lparr>name = str ''clip5.wav'', type = str ''audio/wav''\<rparr>"

definition talk_mp3 :: file_like where
  "talk_mp3 = \<lparr>name = str ''talk.mp3'', type = str ''audio/mpeg''\<rparr>"

definition cat_png :: file_like where
  "cat_png = \<lparr>name = str ''cat.png'', type = str ''image/png''\<rparr>"

section \<open>The normalizer\<close>

lemma foldl_score_sum:
  "foldl (\<lambda>sum s. sum + score s) a scores = a + sum_list (map score scores)"
  by (induction scores arbitrary: a) simp_all

lemma total_of_eq:
  "total_of scores =
     (if sum_list (map score scores) = 0 then 1 else sum_list (map score scores))"
  by (simp add: total_of_def or_else_def foldl_score_sum)

text \<open>The divisor of \<^verbatim>\<open>normalizeScores\<close> is never zero.\<close>

lemma total_of_nonzero: "total_of scores \<noteq> 0"
  by (simp add: total_of_eq)

section \<open>Rounding and the sum of the confidences\<close>

lemma round_bounds:
  fixes x :: real
  shows "x - 1 / 2 < of_int (round x)" and "of_int (round x) \<le> x + 1 / 2"
  unfolding round_def by linarith+

lemma sum_round_upper:
  "(\<Sum>s\<leftarrow>xs. real_of_int (round (f s))) \<le> (\<Sum>s\<leftarrow>xs. f s) + real (length xs) / 2"
proof (induction xs)
  case Nil
  then show ?case by simp
next
  case (Cons x xs)
  have "real_of_int (round (f x)) \<le> f x + 1 / 2" by (rule round_bounds)
  with Cons show ?case by (simp add: field_simps)
qed

lemma sum_round_lower:
  "xs \<noteq> [] \<Longrightarrow>
   (\<Sum>s\<leftarrow>xs. f s) - real (length xs) / 2 < (\<Sum>s\<leftarrow>xs. real_of_int (round (f s)))"
proof (induction xs)
  case Nil
  then show ?case by simp
next
  case (Cons x xs)
  have x: "f x - 1 / 2 < real_of_int (round (f x))" by (rule round_bounds)
  show ?case
  proof (cases "xs = []")
    case True
    with x show ?thesis by simp
  next
    case False
    with Cons.IH x show ?thesis by (simp add: field_simps)
  qed
qed

lemma of_int_sum_list_map:
  "real_of_int (sum_list (map g xs)) = (\<Sum>x\<leftarrow>xs. real_of_int (g x))"
  by (induction xs) simp_all

lemma sum_nonneg:
  "\<forall>s\<in>set scores. 0 < score s \<Longrightarrow> 0 \<le> sum_list (map score scores)"
  by (rule sum_list_nonneg) (auto simp: less_imp_le)

lemma sum_pos:
  assumes "scores \<noteq> []" and "\<forall>s\<in>set scores. 0 < score s"
  shows "0 < sum_list (map score scores)"
proof (cases scores)
  case Nil
  with assms show ?thesis by simp
next
  case (Cons a rest)
  with assms have "0 < score a" and "0 \<le> sum_list (map score rest)"
    by (simp_all add: sum_nonneg)
  with Cons show ?thesis by simp
qed

text \<open>
  Claim C6. For a list whose scores are all zero the divisor is 1, not 0, and every
  confidence returned is 0.
\<close>

theorem normalizeScores_zero_sum:
  assumes "\<forall>s\<in>set scores. score s = 0"
  shows "total_of scores = 1
    \<and> map confidence (normalizeScores scores) = replicate (length scores) 0"
proof -
  from assms have "sum_list (map score scores) = 0"
    by (induction scores) simp_all
  then have "total_of scores = 1" by (simp add: total_of_eq)
  moreover have "map confidence (normalizeScores scores) = replicate (length scores) 0"
    using assms by (simp add: normalizeScores_def Math_round_def map_replicate_const [symmetric])
  ultimately show ?thesis ..
qed

theorem normalizeScores_zero_sum_witness:
  "list_all (\<lambda>s. score s = 0) zero_scores \<and> total_of zero_scores = 1
   \<and> map confidence (normalizeScores zero_scores) = [0, 0, 0, 0]"
proof -
  have zero: "\<forall>s\<in>set zero_scores. score s = 0" by (simp add: zero_scores_def)
  have len: "length zero_scores = 4" by (simp add: zero_scores_def)
  from normalizeScores_zero_sum [OF zero] zero show ?thesis
    by (simp add: list_all_iff len numeral_eq_Suc)
qed

section \<open>The ranking\<close>

lemma set_insert_by: "set (insert_by cmp x xs) = insert x (set xs)"
  by (induction xs) auto

lemma set_sort_by: "set (sort_by cmp xs) = set xs"
  by (induction xs) (simp_all add: set_insert_by)

lemma sorted_insert_by:
  "sorted_wrt descending xs \<Longrightarrow> sorted_wrt descending (insert_by by_confidence x xs)"
  by (induction xs) (auto simp: set_insert_by descending_def by_confidence_def)

lemma sorted_sort_by: "sorted_wrt descending (sort_by by_confidence xs)"
  by (induction xs) (simp_all add: sorted_insert_by)

text \<open>
  An insertion never moves an entry past one of the same confidence, so the entries of
  one confidence stay in the order they had.
\<close>

lemma filter_insert_by:
  "filter (\<lambda>r. confidence r = c) (insert_by by_confidence x xs) =
   filter (\<lambda>r. confidence r = c) (x # xs)"
  by (induction xs) (auto simp: by_confidence_def)

lemma filter_sort_by:
  "filter (\<lambda>r. confidence r = c) (sort_by by_confidence xs) =
   filter (\<lambda>r. confidence r = c) xs"
  by (induction xs) (simp_all add: filter_insert_by)

text \<open>
  Claim C3. For every list of raw scores, the output of the pipeline (the normalized
  entries, sorted) is in non-increasing order of confidence, and for each confidence
  \<open>c\<close> the entries of confidence exactly \<open>c\<close> appear in the output in the order they
  have in the input.
\<close>

theorem rank_descending_stable:
  "sorted_wrt descending (rank scores)
   \<and> filter (\<lambda>r. confidence r = c) (rank scores) =
       filter (\<lambda>r. confidence r = c) (normalizeScores scores)"
  by (simp add: rank_def sorted_sort_by filter_sort_by)

text \<open>
  Scores 0.1, 0.3, 0.3 and 0.1: Stressed and Excited tie at 38 and Stressed, which comes
  first in the input, comes first in the output.
\<close>

theorem rank_descending_stable_witness:
  "sorted_wrt descending (rank tie_scores)
   \<and> map label (filter (\<lambda>r. confidence r = 38) (rank tie_scores)) = [Stressed, Excited]"
  using rank_descending_stable [of tie_scores 38]
  by (simp add: tie_scores_def normalizeScores_def total_of_def or_else_def Math_round_def)

text \<open>The sorted list has the entries of the normalized list, each with the score it had.\<close>

lemma rank_entry:
  assumes "r \<in> set (rank scores)"
  shows "\<exists>s\<in>set scores. label r = label s \<and> score r = score s"
  using assms by (auto simp: rank_def set_sort_by normalizeScores_def)

section \<open>The score generator\<close>

lemma seed_mod3: "seed fileLike mod 3 = spec_seed fileLike mod 3"
  by (cases fileLike)
    (simp_all add: seed_def spec_seed_def or_else_str_def optional_name_def str_def)

lemma seed_add_mod3: "(seed fileLike + k) mod 3 = (spec_seed fileLike + k) mod 3"
  using seed_mod3 [of fileLike] by (rule mod_add_cong) simp

text \<open>
  For the empty name the code takes the fallback, so its seed is 3 where the length of
  the name is 0; the two agree modulo 3, which is all that \<^verbatim>\<open>base\<close> reads.
\<close>

lemma seed_empty_name: "seed (Some \<lparr>name = [], type = t\<rparr>) = 3"
  by (simp add: seed_def or_else_str_def optional_name_def str_def)

lemma length_base: "length (base fileLike) = 4"
  by (simp add: base_def)

text \<open>
  Claim C2. For every clip handle, and without one, the generator's array \<^verbatim>\<open>base\<close> has
  exactly one entry per label, in the order Calm, Stressed, Excited, Neutral, with the
  scores \<open>0.32 + (seed mod 3) * 0.05\<close>, \<open>0.28 + ((seed + 1) mod 3) * 0.04\<close>,
  \<open>0.25 + ((seed + 2) mod 3) * 0.03\<close> and \<open>0.15\<close>, where the seed is the length of the
  display name, or of the fallback identifier when there is no handle.
\<close>

theorem base_one_per_label:
  "map label (base fileLike) = [Calm, Stressed, Excited, Neutral]
   \<and> distinct (map label (base fileLike))
   \<and> set (map label (base fileLike)) = UNIV
   \<and> map score (base fileLike) =
       [0.32 + real (spec_seed fileLike mod 3) * 0.05,
        0.28 + real ((spec_seed fileLike + 1) mod 3) * 0.04,
        0.25 + real ((spec_seed fileLike + 2) mod 3) * 0.03,
        0.15]"
proof -
  have univ: "(UNIV :: label set) = {Calm, Stressed, Excited, Neutral}"
    using label.exhaust by auto
  have labels: "map label (base fileLike) = [Calm, Stressed, Excited, Neutral]"
    by (simp add: base_def)
  have scores: "map score (base fileLike) =
      [0.32 + real (spec_seed fileLike mod 3) * 0.05,
       0.28 + real ((spec_seed fileLike + 1) mod 3) * 0.04,
       0.25 + real ((spec_seed fileLike + 2) mod 3) * 0.03,
       0.15]"
    by (simp only: base_def list.map raw_score.select_convs seed_mod3 seed_add_mod3)
  show ?thesis
    unfolding labels scores by (simp add: univ)
qed

text \<open>The name \<^verbatim>\<open>talk.mp3\<close> has length 8, and 8 mod 3 = 2.\<close>

theorem base_one_per_label_witness:
  "map label (base (Some talk_mp3)) = [Calm, Stressed, Excited, Neutral]
   \<and> map score (base (Some talk_mp3)) = [0.42, 0.28, 0.28, 0.15]"
  using base_one_per_label [of "Some talk_mp3"]
  by (simp add: spec_seed_def talk_mp3_def str_def)

text \<open>
  Claim C5, as stated: for the name \<^verbatim>\<open>clip5.wav\<close> the scores before jitter are 0.42,
  0.32, 0.31 and 0.15. The code gives Calm 0.32: the seed is 9 and 9 mod 3 = 0, so
  nothing is added to 0.32.
\<close>

theorem base_clip5_counterexample:
  "map score (base (Some clip5)) \<noteq> [0.42, 0.32, 0.31, 0.15]"
  by (simp add: base_def seed_def or_else_str_def optional_name_def str_def clip5_def)

text \<open>
  Claim C5, amended. For the name \<^verbatim>\<open>clip5.wav\<close> the seed is 9 and the scores before
  jitter are Calm 0.32, Stressed 0.32, Excited 0.31 and Neutral 0.15, whatever the MIME
  type of the file.
\<close>

theorem base_clip5:
  "seed (Some \<lparr>name = str ''clip5.wav'', type = t\<rparr>) = 9
   \<and> map label (base (Some \<lparr>name = str ''clip5.wav'', type = t\<rparr>)) =
       [Calm, Stressed, Excited, Neutral]
   \<and> map score (base (Some \<lparr>name = str ''clip5.wav'', type = t\<rparr>)) =
       [0.32, 0.32, 0.31, 0.15]"
  by (simp add: base_def seed_def or_else_str_def optional_name_def str_def)

theorem base_clip5_witness:
  "seed (Some clip5) = 9 \<and> map score (base (Some clip5)) = [0.32, 0.32, 0.31, 0.15]"
  using base_clip5 [of "str ''audio/wav''"] by (simp add: clip5_def)

text \<open>A result of \<^verbatim>\<open>Math.random\<close> lies in \<open>[0, 1)\<close>, so the jitter lies in \<open>[-0.06, 0.06)\<close>.\<close>

lemma jitter_range: "0 \<le> r \<Longrightarrow> r < 1 \<Longrightarrow> - 0.06 \<le> jitter r \<and> jitter r < 0.06"
  by (simp add: jitter_def)

lemma length_jittered: "length (jittered random items) = length items"
  by (simp add: jittered_def)

lemma nth_jittered:
  "k < length items \<Longrightarrow>
   jittered random items ! k =
     (items ! k)\<lparr>score := max 0.05 (score (items ! k) + jitter (random k))\<rparr>"
  by (simp add: jittered_def nth_enumerate_eq)

lemma jittered_at_least:
  assumes "s \<in> set (jittered random items)"
  shows "0.05 \<le> score s"
proof -
  from assms obtain k item
    where "s = item\<lparr>score := max 0.05 (score item + jitter (random k))\<rparr>"
    by (auto simp: jittered_def)
  then have "score s = max 0.05 (score item + jitter (random k))" by simp
  then show ?thesis by (simp only: max.cobounded1)
qed

lemma sum_jittered_pos:
  assumes "items \<noteq> []"
  shows "0 < sum_list (map score (jittered random items))"
proof (rule sum_pos)
  show "jittered random items \<noteq> []"
    using assms length_jittered [of random items] by auto
  show "\<forall>s\<in>set (jittered random items). 0 < score s"
    using jittered_at_least [of _ random items] by fastforce
qed

text \<open>
  Claim C8. For every clip handle and every sequence of draws, so in particular for
  every jitter between -0.06 and 0.06, each score after jitter is
  \<open>max 0.05 (base + jitter)\<close> and hence at least 0.05, also in the list that the
  generator returns. The sum that \<^verbatim>\<open>normalizeScores\<close> folds over these scores is not
  zero, so its total is that sum and the fallback 1 is never taken.
\<close>

theorem jittered_floor_total:
  "(\<forall>k<4. score (jittered random (base fileLike) ! k) =
            max 0.05 (score (base fileLike ! k) + jitter (random k)))
   \<and> (\<forall>s\<in>set (jittered random (base fileLike)). 0.05 \<le> score s)
   \<and> (\<exists>out. mockPredictEmotion random fileLike = Fulfilled out
         \<and> (\<forall>r\<in>set out. 0.05 \<le> score r))
   \<and> foldl (\<lambda>sum s. sum + score s) 0 (jittered random (base fileLike)) \<noteq> 0
   \<and> total_of (jittered random (base fileLike)) =
       sum_list (map score (jittered random (base fileLike)))"
proof -
  let ?js = "jittered random (base fileLike)"
  have ne: "base fileLike \<noteq> []" using length_base [of fileLike] by auto
  have pos: "0 < sum_list (map score ?js)"
    by (rule sum_jittered_pos [OF ne])
  have each: "\<forall>k<4. score (?js ! k) = max 0.05 (score (base fileLike ! k) + jitter (random k))"
    by (simp add: nth_jittered length_base)
  have floor: "\<forall>s\<in>set ?js. 0.05 \<le> score s"
    using jittered_at_least by blast
  have "\<forall>r\<in>set (rank ?js). 0.05 \<le> score r"
  proof
    fix r assume "r \<in> set (rank ?js)"
    then obtain s where "s \<in> set ?js" and "score r = score s"
      using rank_entry by blast
    with floor show "0.05 \<le> score r" by simp
  qed
  then have out: "\<exists>out. mockPredictEmotion random fileLike = Fulfilled out
      \<and> (\<forall>r\<in>set out. 0.05 \<le> score r)"
    by (simp add: mockPredictEmotion_def)
  have fold: "foldl (\<lambda>sum s. sum + score s) 0 ?js \<noteq> 0"
    using pos by (simp add: foldl_score_sum)
  have tot: "total_of ?js = sum_list (map score ?js)"
    using pos by (simp add: total_of_eq)
  from each floor out fold tot show ?thesis by (intro conjI)
qed

text \<open>Without a clip handle and with every draw 0, the lowest draw there is.\<close>

theorem jittered_floor_total_witness:
  "score (jittered (\<lambda>k. 0) (base None) ! 3) = max 0.05 (score (base None ! 3) + jitter 0)
   \<and> 0.05 \<le> score (jittered (\<lambda>k. 0) (base None) ! 3)
   \<and> total_of (jittered (\<lambda>k. 0) (base None)) =
       sum_list (map score (jittered (\<lambda>k. 0) (base None)))"
proof -
  have "jittered (\<lambda>k. 0) (base None) ! 3 \<in> set (jittered (\<lambda>k. 0) (base None))"
    by (rule nth_mem) (simp add: length_jittered length_base)
  with jittered_floor_total [of "\<lambda>k. 0" None] show ?thesis by simp
qed

lemma seed_name: "name f = name g \<Longrightarrow> seed (Some f) = seed (Some g)"
  by (simp add: seed_def optional_name_def)

text \<open>
  Claim C9. Two invocations of the generator on clip handles with the same display name
  have the same array \<^verbatim>\<open>base\<close>, whatever else differs between the handles and whatever
  \<^verbatim>\<open>Math.random\<close> returns; and there are draws in \<open>[0, 1)\<close> for which the scores after
  jitter differ between the two runs.
\<close>

theorem base_same_name:
  assumes "name f = name g"
  shows "base (Some f) = base (Some g)
    \<and> (\<exists>random random'.
          (\<forall>k. 0 \<le> random k \<and> random k < 1) \<and> (\<forall>k. 0 \<le> random' k \<and> random' k < 1)
          \<and> jittered random (base (Some f)) \<noteq> jittered random' (base (Some g)))"
proof -
  have eq: "base (Some f) = base (Some g)"
    by (simp add: base_def seed_name [OF assms])
  let ?r = "\<lambda>k::nat. 0.5 :: real" and ?r' = "\<lambda>k::nat. 0.75 :: real"
  have "score (jittered ?r (base (Some g)) ! 3) \<noteq> score (jittered ?r' (base (Some g)) ! 3)"
    by (simp add: nth_jittered length_base) (simp add: base_def jitter_def)
  then have ne: "jittered ?r (base (Some f)) \<noteq> jittered ?r' (base (Some g))"
    unfolding eq by auto
  have r: "\<forall>k. 0 \<le> ?r k \<and> ?r k < 1" and r': "\<forall>k. 0 \<le> ?r' k \<and> ?r' k < 1"
    by simp_all
  from r r' ne have "\<exists>random random'. (\<forall>k. 0 \<le> random k \<and> random k < 1)
      \<and> (\<forall>k. 0 \<le> random' k \<and> random' k < 1)
      \<and> jittered random (base (Some f)) \<noteq> jittered random' (base (Some g))"
    by (intro exI [of _ ?r] exI [of _ ?r'] conjI)
  with eq show ?thesis ..
qed

text \<open>Two files named \<^verbatim>\<open>talk.mp3\<close> that differ in their MIME type.\<close>

theorem base_same_name_witness:
  "name talk_mp3 = name (talk_mp3\<lparr>type := str ''audio/mp3''\<rparr>)
   \<and> talk_mp3 \<noteq> talk_mp3\<lparr>type := str ''audio/mp3''\<rparr>
   \<and> base (Some talk_mp3) = base (Some (talk_mp3\<lparr>type := str ''audio/mp3''\<rparr>))"
proof -
  have n: "name talk_mp3 = name (talk_mp3\<lparr>type := str ''audio/mp3''\<rparr>)" by simp
  have "talk_mp3 \<noteq> talk_mp3\<lparr>type := str ''audio/mp3''\<rparr>"
    by (simp add: talk_mp3_def str_def)
  with base_same_name [OF n] n show ?thesis by simp
qed

section \<open>\<^verbatim>\<open>handleFile\<close>\<close>

text \<open>A file with an audio type does reach the pipeline: the call list is not always empty.\<close>

lemma handleFile_audio_calls:
  assumes "startsWith (type f) (str ''audio'')"
  shows "snd (handleFile createObjectURL random (Some f) s) =
    [CreateObjectURL f, MockPredictEmotion f]"
  using assms by (simp add: handleFile_def analyzeAudio_def Let_def split: prod.splits)

text \<open>
  Claim C7. For every file whose MIME type does not begin with \<^verbatim>\<open>audio\<close>,
  \<^verbatim>\<open>handleFile\<close> makes no call, so the analysis pipeline is not invoked, and the error
  is set to exactly \<^verbatim>\<open>Please upload an audio file (wav, m4a, mp3).\<close>
\<close>

theorem handleFile_rejects_non_audio:
  assumes "\<not> startsWith (type f) (str ''audio'')"
  shows "snd (handleFile createObjectURL random (Some f) s) = []
    \<and> error (fst (handleFile createObjectURL random (Some f) s)) =
        str ''Please upload an audio file (wav, m4a, mp3).''"
  using assms by (simp add: handleFile_def)

theorem handleFile_rejects_non_audio_witness:
  "\<not> startsWith (type cat_png) (str ''audio'')
   \<and> snd (handleFile (\<lambda>f. []) (\<lambda>k. 0) (Some cat_png) initial_state) = []
   \<and> error (fst (handleFile (\<lambda>f. []) (\<lambda>k. 0) (Some cat_png) initial_state)) =
       str ''Please upload an audio file (wav, m4a, mp3).''"
proof -
  have no: "\<not> startsWith (type cat_png) (str ''audio'')"
    by (simp add: cat_png_def startsWith_def str_def)
  from handleFile_rejects_non_audio [OF no] no show ?thesis by simp
qed

text \<open>
  Claim C10. For every file whose MIME type does not begin with \<^verbatim>\<open>audio\<close>,
  \<^verbatim>\<open>handleFile\<close> leaves the audio URL, the audio name, the results and the status as
  they were (and the recording flag too): the new state is the old one with another
  error message.
\<close>

theorem handleFile_non_audio_frame:
  assumes "\<not> startsWith (type f) (str ''audio'')"
  shows "audioUrl (fst (handleFile createObjectURL random (Some f) s)) = audioUrl s
    \<and> audioName (fst (handleFile createObjectURL random (Some f) s)) = audioName s
    \<and> results (fst (handleFile createObjectURL random (Some f) s)) = results s
    \<and> status (fst (handleFile createObjectURL random (Some f) s)) = status s
    \<and> isRecording (fst (handleFile createObjectURL random (Some f) s)) = isRecording s
    \<and> fst (handleFile createObjectURL random (Some f) s) =
        s\<lparr>error := error (fst (handleFile createObjectURL random (Some f) s))\<rparr>"
  using assms by (simp add: handleFile_def)

text \<open>An image dropped on the initial state: still idle, no results, no audio.\<close>

theorem handleFile_non_audio_frame_witness:
  "\<not> startsWith (type cat_png) (str ''audio'')
   \<and> status (fst (handleFile (\<lambda>f. []) (\<lambda>k. 0) (Some cat_png) initial_state)) = Idle
   \<and> results (fst (handleFile (\<lambda>f. []) (\<lambda>k. 0) (Some cat_png) initial_state)) = []
   \<and> audioUrl (fst (handleFile (\<lambda>f. []) (\<lambda>k. 0) (Some cat_png) initial_state)) = []
   \<and> audioName (fst (handleFile (\<lambda>f. []) (\<lambda>k. 0) (Some cat_png) initial_state)) = []"
proof -
  have no: "\<not> startsWith (type cat_png) (str ''audio'')"
    by (simp add: cat_png_def startsWith_def str_def)
  from handleFile_non_audio_frame [OF no, of "\<lambda>f. []" "\<lambda>k. 0" initial_state] no
  show ?thesis by (simp add: initial_state_def)
qed

section \<open>Double precision: the error of a rounding\<close>

text \<open>The exponent is a lower bound: \<open>2 ^ exponent x \<le> \<bar>x\<bar>\<close>.\<close>

lemma exponent_le:
  assumes "x \<noteq> 0"
  shows "2 powi (exponent x) \<le> \<bar>x\<bar>"
proof (cases "1 \<le> \<bar>x\<bar>")
  case True
  let ?n = "\<lfloor>\<bar>x\<bar>\<rfloor>"
  from True have n: "0 < ?n" by linarith
  have e: "exponent x = bitlen ?n - 1"
    using True by (simp add: exponent_def)
  from n have "1 \<le> bitlen ?n" by (auto simp: bitlen_alt_def)
  then have "2 powi (exponent x) = (2::real) ^ nat (bitlen ?n - 1)"
    by (simp add: e power_int_def)
  also have "\<dots> = of_int (2 ^ nat (bitlen ?n - 1))" by simp
  also have "\<dots> \<le> of_int ?n"
    using bitlen_bounds [OF n] by (simp only: of_int_le_iff)
  also have "\<dots> \<le> \<bar>x\<bar>" by simp
  finally show ?thesis .
next
  case False
  let ?a = "\<bar>x\<bar>"
  from assms False have a: "0 < ?a" "?a < 1" by simp_all
  let ?m = "\<lfloor>1 / ?a\<rfloor>"
  from a have "1 < 1 / ?a" by simp
  then have m: "0 < ?m" by linarith
  let ?k = "bitlen ?m - 1"
  from m have k: "0 \<le> ?k" by (auto simp: bitlen_alt_def)
  show ?thesis
  proof (cases "?a * 2 powi ?k = 1")
    case True
    then have e: "exponent x = - ?k"
      using False by (simp add: exponent_def Let_def)
    have "2 powi (- ?k) = inverse (2 powi ?k :: real)" by (rule power_int_minus)
    also from True have "\<dots> = ?a"
      by (metis inverse_unique mult.commute)
    finally show ?thesis by (simp add: e)
  next
    case ne: False
    then have e: "exponent x = - ?k - 1"
      using False by (simp add: exponent_def Let_def)
    have "1 / ?a < of_int ?m + 1" by linarith
    also have "of_int ?m + 1 \<le> (2::real) ^ nat (bitlen ?m)"
    proof -
      from bitlen_bounds [OF m] have "?m + 1 \<le> 2 ^ nat (bitlen ?m)" by simp
      then have "real_of_int (?m + 1) \<le> real_of_int (2 ^ nat (bitlen ?m))"
        by (simp only: of_int_le_iff)
      then show ?thesis by simp
    qed
    finally have "1 / ?a < 2 ^ nat (bitlen ?m)" .
    with a have "1 / 2 ^ nat (bitlen ?m) < ?a"
      by (simp add: field_simps)
    moreover have "2 powi (- ?k - 1) = 1 / (2::real) ^ nat (bitlen ?m)"
    proof -
      have "- ?k - 1 = - bitlen ?m" by simp
      moreover have "0 \<le> bitlen ?m" by (rule bitlen_nonneg)
      ultimately show ?thesis
        by (simp add: power_int_def field_simps)
    qed
    ultimately show ?thesis by (simp add: e)
  qed
qed

text \<open>It is strict from above, so \<open>exponent x\<close> is the binary exponent of \<open>x\<close>.\<close>

lemma exponent_less:
  assumes "x \<noteq> 0"
  shows "\<bar>x\<bar> < 2 powi (exponent x + 1)"
proof (cases "1 \<le> \<bar>x\<bar>")
  case True
  let ?n = "\<lfloor>\<bar>x\<bar>\<rfloor>"
  from True have n: "0 < ?n" by linarith
  have e: "exponent x = bitlen ?n - 1"
    using True by (simp add: exponent_def)
  have "\<bar>x\<bar> < of_int ?n + 1" by linarith
  also have "of_int ?n + 1 \<le> (2::real) ^ nat (bitlen ?n)"
  proof -
    from bitlen_bounds [OF n] have "?n + 1 \<le> 2 ^ nat (bitlen ?n)" by simp
    then have "real_of_int (?n + 1) \<le> real_of_int (2 ^ nat (bitlen ?n))"
      by (simp only: of_int_le_iff)
    then show ?thesis by simp
  qed
  also have "\<dots> = 2 powi (exponent x + 1)"
    using bitlen_nonneg [of ?n] by (simp add: e power_int_def)
  finally show ?thesis .
next
  case False
  let ?a = "\<bar>x\<bar>"
  from assms False have a: "0 < ?a" "?a < 1" by simp_all
  let ?m = "\<lfloor>1 / ?a\<rfloor>"
  from a have "1 < 1 / ?a" by simp
  then have m: "0 < ?m" by linarith
  define k where "k = bitlen ?m - 1"
  from m have k: "0 \<le> k" by (auto simp: k_def bitlen_alt_def)
  have pk: "(2::real) powi k = 2 ^ nat k" using k by (simp add: power_int_def)
  have "real_of_int (2 ^ nat k) \<le> real_of_int ?m"
    using bitlen_bounds [OF m] unfolding k_def by (simp only: of_int_le_iff)
  also have "\<dots> \<le> 1 / ?a" by simp
  finally have "2 ^ nat k \<le> 1 / ?a" by simp
  with a have le: "?a * 2 powi k \<le> 1" by (simp add: pk field_simps)
  have p: "0 < (2::real) powi k" by simp
  have inv: "(2::real) powi (- k) = 1 / 2 powi k"
    using power_int_minus [of "2::real" k] by (simp only: inverse_eq_divide)
  show ?thesis
  proof (cases "?a * 2 powi k = 1")
    case True
    then have e: "exponent x = - k"
      using False by (simp add: exponent_def Let_def k_def)
    from True p have "?a = 1 / 2 powi k" by (simp add: field_simps)
    then have "?a = 2 powi (- k)" by (simp only: inv)
    also have "\<dots> < 2 powi (- k + 1)"
      by (rule power_int_strict_increasing) simp_all
    finally show ?thesis by (simp only: e)
  next
    case ne: False
    then have e: "exponent x = - k - 1"
      using False by (simp add: exponent_def Let_def k_def)
    from le ne have "?a * 2 powi k < 1" by simp
    with p have "?a < 1 / 2 powi k" by (simp add: field_simps)
    then have "?a < 2 powi (- k)" by (simp only: inv)
    moreover have "- k - 1 + 1 = - k" by simp
    ultimately show ?thesis by (simp only: e)
  qed
qed

lemma round_half_even_near: "\<bar>of_int (round_half_even y) - y\<bar> \<le> 1 / 2"
  unfolding round_half_even_def Let_def by (auto; linarith)

lemma round_half_even_of_int [simp]: "round_half_even (of_int n) = n"
  by (simp add: round_half_even_def)

lemma round_half_even_nonneg: "0 \<le> y \<Longrightarrow> 0 \<le> round_half_even y"
  unfolding round_half_even_def Let_def by (auto; linarith)

lemma quantum_pos: "0 < quantum x"
  by (simp add: quantum_def)

text \<open>A rounding moves its argument by at most half a spacing.\<close>

lemma nearest_near: "\<bar>nearest x - x\<bar> \<le> quantum x / 2"
proof -
  let ?q = "quantum x"
  have q: "0 < ?q" by (rule quantum_pos)
  have "\<bar>nearest x - x\<bar> = \<bar>of_int (round_half_even (x / ?q)) - x / ?q\<bar> * ?q"
  proof -
    have "nearest x - x = (of_int (round_half_even (x / ?q)) - x / ?q) * ?q"
      using q by (simp add: nearest_def field_simps)
    then show ?thesis using q by (simp add: abs_mult)
  qed
  also have "\<dots> \<le> 1 / 2 * ?q"
    using q by (intro mult_right_mono round_half_even_near) simp
  finally show ?thesis by simp
qed

lemma nearest_nonneg: "0 \<le> x \<Longrightarrow> 0 \<le> nearest x"
  using quantum_pos [of x] by (simp add: nearest_def round_half_even_nonneg)

lemma nearest_zero [simp]: "nearest 0 = 0"
  by (simp add: nearest_def round_half_even_def)

lemma min_quantum_pos: "0 < min_quantum"
  unfolding min_quantum_def by (rule zero_less_power_int) simp

lemma tiny_pos: "0 < tiny"
  using min_quantum_pos by (simp add: tiny_def)

lemma eps_pos: "0 < eps"
  by (simp add: eps_def)

lemma quantum_cases:
  "quantum x = min_quantum \<or> (x \<noteq> 0 \<longrightarrow> quantum x / 2 \<le> eps * \<bar>x\<bar>)"
proof (cases "exponent x - 52 \<le> - 1074")
  case True
  then have "max (exponent x - 52) (- 1074) = - 1074" by simp
  then have "quantum x = min_quantum" by (simp only: quantum_def min_quantum_def)
  then show ?thesis ..
next
  case False
  then have "max (exponent x - 52) (- 1074) = exponent x - 52" by simp
  then have q: "quantum x = 2 powi (exponent x - 52)" by (simp only: quantum_def)
  have a: "(2::real) powi (exponent x - 52) = 2 powi (exponent x) * 2 powi (- 52)"
    using power_int_add [of "2::real" "exponent x" "- 52"] by simp
  have b: "(2::real) powi (- 52) / 2 = eps"
    by (simp add: eps_def power_int_minus)
  have "quantum x / 2 = 2 powi (exponent x) * (2 powi (- 52) / 2)"
    by (simp only: q a times_divide_eq_right)
  then have "quantum x / 2 = 2 powi (exponent x) * eps"
    by (simp only: b)
  moreover have "x \<noteq> 0 \<longrightarrow> 2 powi (exponent x) * eps \<le> \<bar>x\<bar> * eps"
    using exponent_le [of x] by (simp add: eps_def)
  ultimately show ?thesis by (simp add: mult.commute)
qed

text \<open>
  Hence the error of one rounding: relative \<open>eps\<close> in the normal range, absolute \<open>tiny\<close>
  in the subnormal range.
\<close>

lemma nearest_error: "\<bar>nearest x - x\<bar> \<le> eps * \<bar>x\<bar> + tiny"
proof (cases "x = 0")
  case True
  then show ?thesis using tiny_pos by simp
next
  case False
  have e: "0 \<le> eps * \<bar>x\<bar>" using eps_pos by simp
  from quantum_cases [of x] show ?thesis
  proof
    assume "quantum x = min_quantum"
    then have "quantum x / 2 = tiny" by (simp add: tiny_def)
    with nearest_near [of x] e show ?thesis by linarith
  next
    assume "x \<noteq> 0 \<longrightarrow> quantum x / 2 \<le> eps * \<bar>x\<bar>"
    with False nearest_near [of x] tiny_pos show ?thesis by linarith
  qed
qed

lemma quantum_grid: "\<exists>j::nat. quantum x = 2 ^ j * min_quantum"
proof -
  let ?e = "max (exponent x - 52) (- 1074)"
  have nn: "0 \<le> ?e + 1074" by simp
  have "?e = (?e + 1074) + (- 1074)" by simp
  then have "(2::real) powi ?e = 2 powi ((?e + 1074) + (- 1074))" by (rule arg_cong)
  also have "\<dots> = 2 powi (?e + 1074) * 2 powi (- 1074)"
    by (rule power_int_add) simp
  also have "(2::real) powi (?e + 1074) = 2 ^ nat (?e + 1074)"
    using nn by (simp only: power_int_def if_True)
  finally have "quantum x = 2 ^ nat (?e + 1074) * min_quantum"
    by (simp only: quantum_def min_quantum_def)
  then show ?thesis ..
qed

lemma on_grid_nearest: "on_grid (nearest x)"
proof -
  from quantum_grid [of x] obtain j :: nat where q: "quantum x = 2 ^ j * min_quantum" ..
  have "nearest x = of_int (round_half_even (x / quantum x) * 2 ^ j) * min_quantum"
    unfolding nearest_def by (subst (2) q) simp
  then show ?thesis unfolding on_grid_def ..
qed

lemma on_grid_add: "on_grid a \<Longrightarrow> on_grid b \<Longrightarrow> on_grid (a + b)"
proof -
  assume "on_grid a" and "on_grid b"
  then obtain m n :: int where "a = of_int m * min_quantum" and "b = of_int n * min_quantum"
    unfolding on_grid_def by blast
  then have "a + b = of_int (m + n) * min_quantum"
    by (simp add: distrib_right)
  then show ?thesis unfolding on_grid_def ..
qed

lemma on_grid_zero [simp]: "on_grid 0"
  unfolding on_grid_def by (rule exI [of _ 0]) simp

lemma nearest_grid_exact:
  assumes "on_grid x" and "quantum x = min_quantum"
  shows "nearest x = x"
proof -
  from assms(1) obtain n :: int where x: "x = of_int n * min_quantum"
    unfolding on_grid_def ..
  have "x / min_quantum = of_int n" using min_quantum_pos by (simp add: x)
  then show ?thesis by (simp add: nearest_def assms(2) x [symmetric])
qed

text \<open>
  The sum of two doubles is a multiple of the smallest spacing, so in the subnormal
  range its rounding is exact and the error of an addition is relative only.
\<close>

lemma nearest_add_error:
  assumes "on_grid a" and "on_grid b"
  shows "\<bar>nearest (a + b) - (a + b)\<bar> \<le> eps * \<bar>a + b\<bar>"
proof (cases "a + b = 0")
  case True
  then show ?thesis by simp
next
  case False
  from quantum_cases [of "a + b"] show ?thesis
  proof
    assume "quantum (a + b) = min_quantum"
    with on_grid_add [OF assms] have "nearest (a + b) = a + b"
      by (rule nearest_grid_exact)
    then show ?thesis using eps_pos by simp
  next
    assume "a + b \<noteq> 0 \<longrightarrow> quantum (a + b) / 2 \<le> eps * \<bar>a + b\<bar>"
    with False nearest_near [of "a + b"] show ?thesis by linarith
  qed
qed

section \<open>Double precision: the sum of the scores\<close>

lemma threshold_large: "1000 < overflow_threshold"
  by (simp add: overflow_threshold_def)

lemma rnd_finite: "\<bar>x\<bar> < overflow_threshold \<Longrightarrow> rnd x = Num (nearest x)"
  by (simp add: rnd_def)

lemma rnd_Num: "rnd x = Num v \<Longrightarrow> v = nearest x"
  by (simp add: rnd_def split: if_splits)

lemma rnd_nonneg: "0 \<le> x \<Longrightarrow> rnd x = PosInfinity \<or> rnd x = Num (nearest x)"
  using threshold_large by (auto simp: rnd_def)

lemma is_double_on_grid: "is_double x \<Longrightarrow> on_grid x"
  using on_grid_nearest [of x] by (auto simp: is_double_def dest: rnd_Num)

lemma fold_PosInfinity:
  "foldl (\<lambda>sum s. add_f64 sum (Num (score s))) PosInfinity scores = PosInfinity"
  by (induction scores) simp_all

lemma one_minus_eps: "0 < 1 - eps" "1 - eps \<le> 1"
  by (simp_all add: eps_def)

lemma one_plus_eps: "1 \<le> 1 + eps"
  by (simp add: eps_def)

text \<open>
  The \<^verbatim>\<open>reduce\<close> of the source over scores that are not negative: once a partial sum
  is Infinity it stays so, and while it is finite each addition adds one relative error.
\<close>

lemma fold_bounds:
  assumes "\<forall>s\<in>set scores. on_grid (score s) \<and> 0 \<le> score s"
    and "on_grid a" and "0 \<le> a" and "0 \<le> A"
    and "A * (1 - eps) ^ k \<le> a" and "a \<le> A * (1 + eps) ^ k"
    and "foldl (\<lambda>sum s. add_f64 sum (Num (score s))) (Num a) scores = Num t"
  shows "(A + sum_list (map score scores)) * (1 - eps) ^ (k + length scores) \<le> t
    \<and> t \<le> (A + sum_list (map score scores)) * (1 + eps) ^ (k + length scores)
    \<and> on_grid t \<and> 0 \<le> t"
  using assms
proof (induction scores arbitrary: a A k)
  case Nil
  then show ?case by simp
next
  case (Cons s rest)
  let ?x = "a + score s"
  from Cons.prems have s: "on_grid (score s)" "0 \<le> score s" by simp_all
  with Cons.prems have x: "0 \<le> ?x" by simp
  from Cons.prems(7) have fold: "foldl (\<lambda>sum s. add_f64 sum (Num (score s))) (rnd ?x) rest = Num t"
    by simp
  from rnd_nonneg [OF x] fold fold_PosInfinity [of rest]
  have r: "rnd ?x = Num (nearest ?x)" by auto
  let ?v = "nearest ?x"
  have err: "\<bar>?v - ?x\<bar> \<le> eps * \<bar>?x\<bar>"
    using Cons.prems(2) s(1) by (rule nearest_add_error)
  have v_low: "?x * (1 - eps) \<le> ?v" and v_up: "?v \<le> ?x * (1 + eps)"
    using err x by (simp_all add: algebra_simps abs_le_iff)
  have pk: "0 \<le> (1 - eps) ^ k" "(1 - eps) ^ k \<le> 1"
    using one_minus_eps by (simp_all add: power_le_one)
  have qk: "1 \<le> (1 + eps) ^ k"
    using one_plus_eps by (rule one_le_power)
  have "score s * (1 - eps) ^ k \<le> score s"
    using s(2) pk(2) by (simp add: mult_left_le)
  with Cons.prems(5) have x_low: "(A + score s) * (1 - eps) ^ k \<le> ?x"
    by (simp add: algebra_simps)
  have "score s \<le> score s * (1 + eps) ^ k"
    using s(2) qk by (simp add: mult_le_cancel_left1)
  with Cons.prems(6) have x_up: "?x \<le> (A + score s) * (1 + eps) ^ k"
    by (simp add: algebra_simps)
  have low: "(A + score s) * (1 - eps) ^ Suc k \<le> ?v"
  proof -
    have "(A + score s) * (1 - eps) ^ Suc k = (A + score s) * (1 - eps) ^ k * (1 - eps)"
      by simp
    also have "\<dots> \<le> ?x * (1 - eps)"
      using x_low one_minus_eps(1) by (intro mult_right_mono) simp_all
    also note v_low
    finally show ?thesis .
  qed
  have up: "?v \<le> (A + score s) * (1 + eps) ^ Suc k"
  proof -
    note v_up
    also have "?x * (1 + eps) \<le> (A + score s) * (1 + eps) ^ k * (1 + eps)"
      using x_up one_plus_eps by (intro mult_right_mono) simp_all
    also have "\<dots> = (A + score s) * (1 + eps) ^ Suc k" by simp
    finally show ?thesis .
  qed
  have "(A + score s + sum_list (map score rest)) * (1 - eps) ^ (Suc k + length rest) \<le> t
    \<and> t \<le> (A + score s + sum_list (map score rest)) * (1 + eps) ^ (Suc k + length rest)
    \<and> on_grid t \<and> 0 \<le> t"
  proof (rule Cons.IH)
    show "\<forall>s\<in>set rest. on_grid (score s) \<and> 0 \<le> score s" using Cons.prems(1) by simp
    show "on_grid ?v" by (rule on_grid_nearest)
    show "0 \<le> ?v" using x by (rule nearest_nonneg)
    show "0 \<le> A + score s" using Cons.prems(4) s(2) by simp
    show "(A + score s) * (1 - eps) ^ Suc k \<le> ?v" by (rule low)
    show "?v \<le> (A + score s) * (1 + eps) ^ Suc k" by (rule up)
    show "foldl (\<lambda>sum s. add_f64 sum (Num (score s))) (Num ?v) rest = Num t"
      using fold r by simp
  qed
  then show ?case by (simp add: add.assoc)
qed

lemma sum_f64_bounds:
  assumes "\<forall>s\<in>set scores. is_double (score s) \<and> 0 \<le> score s"
    and "foldl (\<lambda>sum s. add_f64 sum (Num (score s))) (Num 0) scores = Num t"
  shows "sum_list (map score scores) * (1 - eps) ^ length scores \<le> t"
    and "t \<le> sum_list (map score scores) * (1 + eps) ^ length scores"
    and "0 \<le> t"
proof -
  have "\<forall>s\<in>set scores. on_grid (score s) \<and> 0 \<le> score s"
    using assms(1) is_double_on_grid by blast
  from fold_bounds [OF this on_grid_zero _ _ _ _ assms(2), of 0 0]
  show "sum_list (map score scores) * (1 - eps) ^ length scores \<le> t"
    and "t \<le> sum_list (map score scores) * (1 + eps) ^ length scores"
    and "0 \<le> t"
    by simp_all
qed

section \<open>Double precision: the share of an entry\<close>

lemma pow_one_minus_eps:
  assumes "n < 2 ^ 32"
  shows "1 / 2 \<le> (1 - eps) ^ n"
proof -
  from assms have "real n < real (2 ^ 32)" by (simp only: of_nat_less_iff)
  then have "real n \<le> 2 ^ 32" by simp
  then have "real n * eps \<le> 2 ^ 32 * eps"
    using eps_pos by (intro mult_right_mono) simp_all
  also have "\<dots> \<le> 1 / 2" by (simp add: eps_def)
  finally have "1 / 2 \<le> 1 + real n * (- eps)" by simp
  also have "\<dots> \<le> (1 + (- eps)) ^ n"
    using one_minus_eps by (intro Bernoulli_inequality) simp
  finally show ?thesis by simp
qed

lemma eps_small: "eps \<le> 1 / 100"
  by (simp add: eps_def)

lemma tiny_small: "tiny \<le> 1"
proof -
  have "(2::real) powi (- 1074) \<le> 2 powi 0"
    by (rule power_int_increasing) simp_all
  then show ?thesis by (simp add: tiny_def min_quantum_def)
qed

text \<open>Two roundings in a row: the quotient, then the product with 100.\<close>

lemma two_roundings_upper:
  fixes r q p :: real
  assumes "0 \<le> r" and "q \<le> r * (1 + eps) + tiny" and "p \<le> 100 * q * (1 + eps) + tiny"
  shows "p \<le> 100 * r * (1 + eps) ^ 2 + 102 * tiny"
proof -
  have "100 * q * (1 + eps) \<le> 100 * (r * (1 + eps) + tiny) * (1 + eps)"
    using assms(2) eps_pos by (intro mult_right_mono mult_left_mono) simp_all
  also have "\<dots> = 100 * r * (1 + eps) ^ 2 + 100 * tiny + 100 * (tiny * eps)"
    by (simp add: algebra_simps power2_eq_square)
  also have "tiny * eps \<le> tiny * (1 / 100)"
    using tiny_pos eps_small by (intro mult_left_mono) simp_all
  finally have "100 * q * (1 + eps) \<le> 100 * r * (1 + eps) ^ 2 + 101 * tiny" by simp
  with assms(3) show ?thesis by linarith
qed

lemma two_roundings_lower:
  fixes r q p :: real
  assumes "0 \<le> r" and "r * (1 - eps) - tiny \<le> q" and "100 * q * (1 - eps) - tiny \<le> p"
  shows "100 * r * (1 - eps) ^ 2 - 102 * tiny \<le> p"
proof -
  have "100 * (r * (1 - eps) - tiny) * (1 - eps) \<le> 100 * q * (1 - eps)"
    using assms(2) one_minus_eps(1) by (intro mult_right_mono mult_left_mono) simp_all
  moreover have "100 * (r * (1 - eps) - tiny) * (1 - eps) =
      100 * r * (1 - eps) ^ 2 - 100 * tiny + 100 * (tiny * eps)"
    by (simp add: algebra_simps power2_eq_square)
  moreover have "0 \<le> tiny * eps" using tiny_pos eps_pos by simp
  ultimately have "100 * r * (1 - eps) ^ 2 - 100 * tiny \<le> 100 * q * (1 - eps)" by linarith
  with assms(3) tiny_pos show ?thesis by linarith
qed

lemma rnd_bounded:
  assumes "0 \<le> x" and "x \<le> 1000"
  shows "rnd x = Num (nearest x)" and "0 \<le> nearest x"
    and "x * (1 - eps) - tiny \<le> nearest x" and "nearest x \<le> x * (1 + eps) + tiny"
proof -
  from assms threshold_large show "rnd x = Num (nearest x)"
    by (intro rnd_finite) simp
  from assms(1) show "0 \<le> nearest x" by (rule nearest_nonneg)
  from nearest_error [of x] assms(1)
  show "x * (1 - eps) - tiny \<le> nearest x" and "nearest x \<le> x * (1 + eps) + tiny"
    by (simp_all add: algebra_simps abs_le_iff)
qed

lemma member_le_sum_nonneg:
  "\<forall>s\<in>set scores. 0 \<le> score s \<Longrightarrow> s \<in> set scores \<Longrightarrow>
   score s \<le> sum_list (map score scores)"
proof (induction scores)
  case Nil
  then show ?case by simp
next
  case (Cons a rest)
  then have a: "0 \<le> score a" by simp
  have rest: "0 \<le> sum_list (map score rest)"
    by (rule sum_list_nonneg) (use Cons.prems in auto)
  show ?case
  proof (cases "s = a")
    case True
    with rest show ?thesis by simp
  next
    case False
    with Cons have "score s \<le> sum_list (map score rest)" by simp
    with a show ?thesis by simp
  qed
qed

text \<open>
  With at most \<open>2 ^ 32\<close> scores the quotient of a score by the computed sum is at most 2,
  so neither the quotient nor the product overflows, and the computed share lies in the
  interval around the exact one.
\<close>

lemma share_f64_bounds:
  assumes dbl: "\<forall>s\<in>set scores. is_double (score s) \<and> 0 \<le> score s"
    and len: "length scores < 2 ^ 32"
    and fin: "foldl (\<lambda>sum s. add_f64 sum (Num (score s))) (Num 0) scores = Num t"
    and s: "s \<in> set scores"
  shows "share_f64 scores s = Num (rounded_share t (score s))
    \<and> lower_share (length scores) (exact_share scores s) \<le> rounded_share t (score s)
    \<and> rounded_share t (score s) \<le> upper_share (length scores) (exact_share scores s)"
proof -
  let ?n = "length scores" and ?T = "sum_list (map score scores)"
  let ?X = "100 * score s / spec_total scores"
  have nonneg: "\<forall>s\<in>set scores. 0 \<le> score s" using dbl by simp
  have T0: "0 \<le> ?T" by (rule sum_list_nonneg) (use nonneg in auto)
  have sT: "score s \<le> ?T" using nonneg s by (rule member_le_sum_nonneg)
  have s0: "0 \<le> score s" using nonneg s by simp
  note t = sum_f64_bounds [OF dbl fin]
  show ?thesis
  proof (cases "?T = 0")
    case True
    with t have "t = 0" by simp
    with fin have tot: "total_f64 scores = Num 1"
      by (simp add: total_f64_def or_else_f64_def)
    from True sT s0 have z: "score s = 0" by simp
    have r0: "rnd 0 = Num 0" using rnd_bounded(1) [of 0] by simp
    have "share_f64 scores s = Num 0"
      by (simp add: share_f64_def tot z r0)
    moreover have "rounded_share t (score s) = 0"
      by (simp add: rounded_share_def z)
    moreover have "lower_share ?n ?X \<le> 0" and "0 \<le> upper_share ?n ?X"
      using tiny_pos by (simp_all add: lower_share_def upper_share_def z)
    ultimately show ?thesis by (simp add: exact_share_def)
  next
    case False
    with T0 have T: "0 < ?T" by simp
    then have spec: "spec_total scores = ?T" by (simp add: spec_total_def)
    let ?c = "(1 - eps) ^ ?n" and ?d = "(1 + eps) ^ ?n"
    have c: "1 / 2 \<le> ?c" using len by (rule pow_one_minus_eps)
    have d: "1 \<le> ?d" using one_plus_eps by (rule one_le_power)
    have Tc: "0 < ?T * ?c" using T c by simp
    have Td: "0 < ?T * ?d" using T d by simp
    from t(1) Tc have tpos: "0 < t" by linarith
    then have tot: "total_f64 scores = Num t"
      using fin by (simp add: total_f64_def or_else_f64_def)
    let ?r = "score s / t"
    have r0: "0 \<le> ?r" using s0 tpos by simp
    have r_up: "100 * ?r \<le> ?X / ?c"
    proof -
      have "0 < t * (?T * ?c)" using tpos Tc by (rule mult_pos_pos)
      with t(1) s0 have "score s / t \<le> score s / (?T * ?c)"
        by (rule divide_left_mono)
      then have A: "100 * ?r \<le> 100 * (score s / (?T * ?c))" by simp
      have B: "100 * (score s / (?T * ?c)) = ?X / ?c" by (simp add: spec)
      show ?thesis by (rule A [unfolded B])
    qed
    have r_low: "?X / ?d \<le> 100 * ?r"
    proof -
      have "0 < ?T * ?d * t" using Td tpos by (rule mult_pos_pos)
      with t(2) s0 have "score s / (?T * ?d) \<le> score s / t"
        by (rule divide_left_mono)
      then have A: "100 * (score s / (?T * ?d)) \<le> 100 * ?r" by simp
      have B: "100 * (score s / (?T * ?d)) = ?X / ?d" by (simp add: spec)
      show ?thesis by (rule A [unfolded B])
    qed
    have X100: "?X \<le> 100" using sT T by (simp add: spec pos_divide_le_eq)
    have "?X / ?c \<le> 100 / (1 / 2)"
      using X100 c by (intro frac_le) simp_all
    with r_up have r2: "?r \<le> 2" by simp
    let ?q = "nearest ?r"
    note q = rnd_bounded [OF r0, of]
    have r1000: "?r \<le> 1000" using r2 by simp
    have q1: "rnd ?r = Num ?q" and q0: "0 \<le> ?q"
      and q_low: "?r * (1 - eps) - tiny \<le> ?q" and q_up: "?q \<le> ?r * (1 + eps) + tiny"
      using rnd_bounded [OF r0 r1000] by simp_all
    define R1 where "R1 = ?r * (1 + eps)"
    have "R1 \<le> 2 * (1 + 1 / 100)"
      unfolding R1_def using r2 r0 eps_small eps_pos by (intro mult_mono) simp_all
    then have "R1 \<le> 3" by simp
    moreover have "?q \<le> R1 + tiny" using q_up unfolding R1_def .
    ultimately have q4: "?q \<le> 4" using tiny_small by linarith
    let ?y = "?q * 100"
    have y0: "0 \<le> ?y" using q0 by simp
    have y1000: "?y \<le> 1000" using q4 by simp
    let ?p = "nearest ?y"
    have p1: "rnd ?y = Num ?p"
      and p_low: "?y * (1 - eps) - tiny \<le> ?p" and p_up: "?p \<le> ?y * (1 + eps) + tiny"
      using rnd_bounded [OF y0 y1000] by simp_all
    have share: "share_f64 scores s = Num ?p"
      using tpos by (simp add: share_f64_def tot q1 p1)
    have up: "?p \<le> upper_share ?n ?X"
    proof -
      have "?p \<le> 100 * ?r * (1 + eps) ^ 2 + 102 * tiny"
        using r0 q_up p_up by (intro two_roundings_upper [of ?r ?q]) (simp_all add: mult.commute)
      moreover have "100 * ?r * (1 + eps) ^ 2 \<le> ?X / ?c * (1 + eps) ^ 2"
        using r_up by (intro mult_right_mono) simp_all
      ultimately show ?thesis by (simp add: upper_share_def)
    qed
    have low: "lower_share ?n ?X \<le> ?p"
    proof -
      have "100 * ?r * (1 - eps) ^ 2 - 102 * tiny \<le> ?p"
        using r0 q_low p_low by (intro two_roundings_lower [of ?r ?q]) (simp_all add: mult.commute)
      moreover have "?X / ?d * (1 - eps) ^ 2 \<le> 100 * ?r * (1 - eps) ^ 2"
        using r_low by (intro mult_right_mono) simp_all
      ultimately show ?thesis by (simp add: lower_share_def)
    qed
    have "rounded_share t (score s) = ?p"
      using tpos by (simp add: rounded_share_def)
    with share low up show ?thesis by (simp add: exact_share_def)
  qed
qed

section \<open>Double precision: the confidences\<close>

lemma nth_normalizeScores_f64:
  "i < length scores \<Longrightarrow>
   confidence_f64 (normalizeScores_f64 scores ! i) = Math_round_f64 (share_f64 scores (scores ! i))
   \<and> label (normalizeScores_f64 scores ! i) = label (scores ! i)
   \<and> score (normalizeScores_f64 scores ! i) = score (scores ! i)"
  by (simp add: normalizeScores_f64_def share_f64_def)

text \<open>The equations that compute a rounding on a numeral.\<close>

lemmas f64_eval = rnd_def overflow_threshold_def nearest_def quantum_def
      exponent_def round_half_even_def compute_bitlen

lemma is_double_small_int:
  "is_double 1" "is_double 3" "is_double 5" "is_double 7" "is_double 23" "is_double 0"
  by (simp_all add: is_double_def f64_eval)

lemma bounds4:
  "(1 + eps) ^ 2 / (1 - eps) ^ 4 \<le> 1 + 1 / 1000"
  "1 - 1 / 1000 \<le> (1 - eps) ^ 2 / (1 + eps) ^ 4"
  by (simp_all add: eps_def power_divide)

lemma tiny_small2: "102 * tiny \<le> 1 / 1000"
proof -
  have "(2::real) powi (- 1074) \<le> 2 powi (- 20)"
    by (rule power_int_increasing) simp_all
  also have "\<dots> = 1 / 2 ^ 20" by (simp add: power_int_minus field_simps)
  finally have "min_quantum \<le> 1 / 2 ^ 20" by (simp only: min_quantum_def)
  then show ?thesis by (simp add: tiny_def)
qed

text \<open>
  Claim C1, as stated: every entry gets the confidence \<open>round (100 * score / total)\<close>.
  For the scores 23, 7, 5 and 5 the total is 40 and \<open>100 * 23 / 40\<close> is 57.5, which
  rounds to 58. The code divides first: \<open>23 / 40\<close> is not a double, the nearest double
  lies below it, and its product with 100 rounds to a double below 57.5, so the code
  returns 57.
\<close>

theorem normalizeScores_confidence_counterexample:
  "list_all (\<lambda>s. is_double (score s) \<and> 0 \<le> score s) half_scores
   \<and> confidence_f64 (normalizeScores_f64 half_scores ! 0) = Num 57
   \<and> spec_confidence half_scores (half_scores ! 0) = 58"
  by (simp add: half_scores_def is_double_small_int normalizeScores_f64_def total_f64_def
      or_else_f64_def spec_confidence_def spec_total_def round_def f64_eval)

text \<open>
  Claim C1, amended. For every non-empty list of fewer than \<open>2 ^ 32\<close> doubles, none
  negative, whose sum \<open>t\<close> as the code computes it is finite, the normalizer gives the
  entry at each index its label, its score and the confidence \<open>round p\<close>, where \<open>p\<close> is
  the double that the code computes for \<open>(score / total) * 100\<close>: the quotient rounded,
  then the product rounded, with \<open>t\<close> as the total, or 1 when \<open>t\<close> is zero. That double
  lies between \<open>lower_share\<close> and \<open>upper_share\<close> of \<open>100 * score / total\<close>, the total being
  the exact sum of all scores of the list, taken as 1 when that sum is zero: a relative
  error of \<open>n + 2\<close> roundings and \<open>102 * 2 ^ -1075\<close>. Whenever this interval lies
  between the two half-integers around \<open>round (100 * score / total)\<close>, the confidence is
  \<open>round (100 * score / total)\<close>.
\<close>

theorem normalizeScores_f64_confidence:
  assumes dbl: "\<forall>s\<in>set scores. is_double (score s) \<and> 0 \<le> score s"
    and len: "length scores < 2 ^ 32"
    and fin: "foldl (\<lambda>sum s. add_f64 sum (Num (score s))) (Num 0) scores = Num t"
    and i: "i < length scores"
  shows "length (normalizeScores_f64 scores) = length scores
    \<and> label (normalizeScores_f64 scores ! i) = label (scores ! i)
    \<and> score (normalizeScores_f64 scores ! i) = score (scores ! i)
    \<and> confidence_f64 (normalizeScores_f64 scores ! i) =
        Num (of_int (round (rounded_share t (score (scores ! i)))))
    \<and> lower_share (length scores) (exact_share scores (scores ! i))
        \<le> rounded_share t (score (scores ! i))
    \<and> rounded_share t (score (scores ! i))
        \<le> upper_share (length scores) (exact_share scores (scores ! i))
    \<and> (of_int (spec_confidence scores (scores ! i)) - 1 / 2
          \<le> lower_share (length scores) (exact_share scores (scores ! i))
        \<and> upper_share (length scores) (exact_share scores (scores ! i))
          < of_int (spec_confidence scores (scores ! i)) + 1 / 2
        \<longrightarrow> confidence_f64 (normalizeScores_f64 scores ! i) =
          Num (of_int (spec_confidence scores (scores ! i))))"
proof -
  let ?s = "scores ! i"
  let ?p = "rounded_share t (score ?s)"
  let ?lo = "lower_share (length scores) (exact_share scores ?s)"
  let ?hi = "upper_share (length scores) (exact_share scores ?s)"
  let ?m = "spec_confidence scores ?s"
  from i have "?s \<in> set scores" by simp
  from share_f64_bounds [OF dbl len fin this]
  have p: "share_f64 scores ?s = Num ?p" and lo: "?lo \<le> ?p" and hi: "?p \<le> ?hi"
    by simp_all
  have c: "confidence_f64 (normalizeScores_f64 scores ! i) = Num (of_int (round ?p))"
    using nth_normalizeScores_f64 [OF i] by (simp add: p round_def)
  have "round ?p = ?m" if "of_int ?m - 1 / 2 \<le> ?lo" and "?hi < of_int ?m + 1 / 2"
  proof (rule round_unique)
    from that(2) hi show "?p - 1 / 2 < of_int ?m" by linarith
    from that(1) lo show "of_int ?m \<le> ?p + 1 / 2" by linarith
  qed
  with c have "of_int ?m - 1 / 2 \<le> ?lo \<and> ?hi < of_int ?m + 1 / 2
      \<longrightarrow> confidence_f64 (normalizeScores_f64 scores ! i) = Num (of_int ?m)"
    by simp
  moreover have "length (normalizeScores_f64 scores) = length scores"
    by (simp add: normalizeScores_f64_def)
  ultimately show ?thesis using nth_normalizeScores_f64 [OF i] c lo hi by simp
qed

text \<open>
  Scores 1, 1, 1 and 3: the first share is \<open>100 / 6\<close>, far from a half-integer, and the
  confidence is 17.
\<close>

theorem normalizeScores_f64_confidence_witness:
  "list_all (\<lambda>s. is_double (score s) \<and> 0 \<le> score s) uneven_scores
   \<and> length uneven_scores < 2 ^ 32
   \<and> foldl (\<lambda>sum s. add_f64 sum (Num (score s))) (Num 0) uneven_scores = Num 6
   \<and> spec_confidence uneven_scores (uneven_scores ! 0) = 17
   \<and> confidence_f64 (normalizeScores_f64 uneven_scores ! 0) = Num 17"
proof -
  have dbl: "\<forall>s\<in>set uneven_scores. is_double (score s) \<and> 0 \<le> score s"
    by (simp add: uneven_scores_def is_double_small_int)
  have len: "length uneven_scores < 2 ^ 32" by (simp add: uneven_scores_def)
  have fin: "foldl (\<lambda>sum s. add_f64 sum (Num (score s))) (Num 0) uneven_scores = Num 6"
    by (simp add: uneven_scores_def f64_eval)
  have i: "0 < length uneven_scores" by (simp add: uneven_scores_def)
  have x: "exact_share uneven_scores (uneven_scores ! 0) = 100 / 6"
    by (simp add: exact_share_def spec_total_def uneven_scores_def)
  have m: "spec_confidence uneven_scores (uneven_scores ! 0) = 17"
    by (simp add: spec_confidence_def spec_total_def uneven_scores_def round_def)
  have n: "length uneven_scores = 4" by (simp add: uneven_scores_def)
  have lo: "17 - 1 / 2 \<le> lower_share 4 (100 / 6)"
  proof -
    have "(100 / 6) * (1 - 1 / 1000) \<le> (100 / 6) * ((1 - eps) ^ 2 / (1 + eps) ^ 4)"
      using bounds4(2) by (intro mult_left_mono) simp_all
    with tiny_small2 show ?thesis by (simp add: lower_share_def)
  qed
  have hi: "upper_share 4 (100 / 6) < 17 + 1 / 2"
  proof -
    have "(100 / 6) * ((1 + eps) ^ 2 / (1 - eps) ^ 4) \<le> (100 / 6) * (1 + 1 / 1000)"
      using bounds4(1) by (intro mult_left_mono) simp_all
    with tiny_small2 show ?thesis by (simp add: upper_share_def)
  qed
  from normalizeScores_f64_confidence [OF dbl len fin i] lo hi
  have "confidence_f64 (normalizeScores_f64 uneven_scores ! 0) = Num 17"
    by (auto simp: x m n)
  with dbl len fin m show ?thesis by (simp add: list_all_iff)
qed

text \<open>Roundings that are exact: a real of 53 significant bits at its own exponent.\<close>

lemma bitlen_between:
  assumes "2 ^ n \<le> m" and "m < 2 ^ Suc n"
  shows "bitlen m = int n + 1"
proof -
  have m: "0 < m" using assms(1) by (rule less_le_trans [rotated]) simp
  have "(2::nat) ^ n \<le> nat m"
    using assms(1) by (simp add: le_nat_iff)
  then have "Suc n \<le> floorlog 2 (nat m)" by (rule floorlog_ge_SucI) simp
  moreover have "nat m < 2 ^ Suc n"
    using assms(2) m by (simp add: nat_less_iff)
  then have "floorlog 2 (nat m) \<le> Suc n" by (intro floorlog_leI) simp_all
  ultimately show ?thesis by (simp add: bitlen_def)
qed

lemma exponent_between:
  assumes "2 ^ n \<le> \<bar>x\<bar>" and "\<bar>x\<bar> < 2 ^ Suc n"
  shows "exponent x = int n"
proof -
  have one: "1 \<le> \<bar>x\<bar>" using assms(1) by (rule order_trans [rotated]) simp
  have "real_of_int (2 ^ n) \<le> \<bar>x\<bar>" using assms(1) by simp
  then have low: "2 ^ n \<le> \<lfloor>\<bar>x\<bar>\<rfloor>" by (simp only: le_floor_iff)
  have "real_of_int \<lfloor>\<bar>x\<bar>\<rfloor> < real_of_int (2 ^ Suc n)"
    using assms(2) by (intro le_less_trans [OF of_int_floor_le]) simp
  then have up: "\<lfloor>\<bar>x\<bar>\<rfloor> < 2 ^ Suc n" by (simp only: of_int_less_iff)
  from bitlen_between [OF low up] one show ?thesis
    by (simp add: exponent_def)
qed

lemma rnd_exact:
  assumes "2 ^ n \<le> \<bar>x\<bar>" and "\<bar>x\<bar> < 2 ^ Suc n" and "52 \<le> n"
    and "x = of_int k * 2 ^ (n - 52)" and "\<bar>x\<bar> < overflow_threshold"
  shows "rnd x = Num x"
proof -
  have e: "exponent x = int n" using assms(1,2) by (rule exponent_between)
  have "max (int n - 52) (- 1074) = int (n - 52)" using assms(3) by simp
  then have q: "quantum x = 2 ^ (n - 52)"
    by (simp only: quantum_def e power_int_of_nat)
  have d: "x / 2 ^ (n - 52) = of_int k" by (simp add: assms(4))
  have "nearest x = of_int (round_half_even (x / quantum x)) * quantum x"
    by (rule nearest_def)
  also have "\<dots> = of_int k * 2 ^ (n - 52)"
    by (simp only: d q round_half_even_of_int)
  also have "\<dots> = x" by (rule assms(4) [symmetric])
  finally have "nearest x = x" .
  with assms(5) show ?thesis by (simp add: rnd_def)
qed

lemma rnd_huge:
  "rnd (2 ^ 1022) = Num (2 ^ 1022)"
  "rnd (2 ^ 1023) = Num (2 ^ 1023)"
  "rnd (3 * 2 ^ 1022) = Num (3 * 2 ^ 1022)"
  "rnd (2 ^ 1024) = PosInfinity"
proof -
  show "rnd (2 ^ 1022) = Num (2 ^ 1022)"
    by (rule rnd_exact [where n = 1022 and k = "2 ^ 52"]) (simp_all add: overflow_threshold_def)
  show "rnd (2 ^ 1023) = Num (2 ^ 1023)"
    by (rule rnd_exact [where n = 1023 and k = "2 ^ 52"]) (simp_all add: overflow_threshold_def)
  show "rnd (3 * 2 ^ 1022) = Num (3 * 2 ^ 1022)"
    by (rule rnd_exact [where n = 1023 and k = "3 * 2 ^ 51"]) (simp_all add: overflow_threshold_def)
  show "rnd (2 ^ 1024) = PosInfinity"
    by (simp add: rnd_def overflow_threshold_def)
qed

lemma rnd_zero: "rnd 0 = Num 0"
  using rnd_bounded(1) [of 0] by simp


lemma sum_exact_share:
  assumes "sum_list (map score scores) \<noteq> 0"
  shows "(\<Sum>s\<leftarrow>scores. exact_share scores s) = 100"
proof -
  have "(\<Sum>s\<leftarrow>scores. exact_share scores s) =
      (\<Sum>s\<leftarrow>scores. (100 / spec_total scores) * score s)"
    by (simp add: exact_share_def)
  also have "\<dots> = (100 / spec_total scores) * (\<Sum>s\<leftarrow>scores. score s)"
    by (rule sum_list_const_mult)
  also have "\<dots> = 100" using assms by (simp add: spec_total_def)
  finally show ?thesis .
qed

lemma sum_list_affine:
  fixes c d :: real
  shows "(\<Sum>s\<leftarrow>xs. f s * c + d) = (\<Sum>s\<leftarrow>xs. f s) * c + real (length xs) * d"
    and "(\<Sum>s\<leftarrow>xs. f s * c - d) = (\<Sum>s\<leftarrow>xs. f s) * c - real (length xs) * d"
  by (induction xs) (simp_all add: algebra_simps)

lemma share4_bounds:
  assumes "0 \<le> x"
  shows "x * (1 - 1 / 1000) - 1 / 1000 \<le> lower_share 4 x"
    and "upper_share 4 x \<le> x * (1 + 1 / 1000) + 1 / 1000"
proof -
  define lo where "lo = x * ((1 - eps) ^ 2 / (1 + eps) ^ 4)"
  define hi where "hi = x * ((1 + eps) ^ 2 / (1 - eps) ^ 4)"
  have "x * (1 - 1 / 1000) \<le> lo"
    unfolding lo_def using bounds4(2) assms by (rule mult_left_mono)
  moreover have "lower_share 4 x = lo - 102 * tiny"
    by (simp add: lower_share_def lo_def)
  ultimately show "x * (1 - 1 / 1000) - 1 / 1000 \<le> lower_share 4 x"
    using tiny_small2 by linarith
  have "hi \<le> x * (1 + 1 / 1000)"
    unfolding hi_def using bounds4(1) assms by (rule mult_left_mono)
  moreover have "upper_share 4 x = hi + 102 * tiny"
    by (simp add: upper_share_def hi_def)
  ultimately show "upper_share 4 x \<le> x * (1 + 1 / 1000) + 1 / 1000"
    using tiny_small2 by linarith
qed



text \<open>
  The zero-sum guard in double precision: for scores that are all zero the divisor is 1
  and every confidence is zero, as in exact arithmetic.
\<close>

lemma normalizeScores_f64_zero_sum:
  assumes "\<forall>s\<in>set scores. score s = 0"
  shows "total_f64 scores = Num 1"
    and "map confidence_f64 (normalizeScores_f64 scores) = replicate (length scores) (Num 0)"
proof -
  have "foldl (\<lambda>sum s. add_f64 sum (Num (score s))) (Num 0) scores = Num 0"
    using assms by (induction scores) (simp_all add: rnd_zero)
  then show tot: "total_f64 scores = Num 1"
    by (simp add: total_f64_def or_else_f64_def)
  show "map confidence_f64 (normalizeScores_f64 scores) = replicate (length scores) (Num 0)"
    using assms
    by (simp add: normalizeScores_f64_def tot rnd_zero map_replicate_const [symmetric])
qed

text \<open>
  On strictly positive scores with a finite sum the computed sum is positive, so the
  fallback 1 is not taken in double precision either.
\<close>

lemma total_f64_positive:
  assumes dbl: "\<forall>s\<in>set scores. is_double (score s) \<and> 0 < score s"
    and ne: "scores \<noteq> []" and len: "length scores < 2 ^ 32"
    and fin: "foldl (\<lambda>sum s. add_f64 sum (Num (score s))) (Num 0) scores = Num t"
  shows "0 < t" and "total_f64 scores = Num t"
proof -
  have dbl0: "\<forall>s\<in>set scores. is_double (score s) \<and> 0 \<le> score s"
    using dbl by (auto simp: less_imp_le)
  have "0 < sum_list (map score scores)"
    using ne dbl by (intro sum_pos) simp_all
  moreover have "0 < (1 - eps) ^ length scores"
    using pow_one_minus_eps [OF len] by simp
  ultimately have "0 < sum_list (map score scores) * (1 - eps) ^ length scores"
    by (rule mult_pos_pos)
  with sum_f64_bounds(1) [OF dbl0 fin] show t: "0 < t" by linarith
  with fin show "total_f64 scores = Num t"
    by (simp add: total_f64_def or_else_f64_def)
qed

end
